theory Spec2Isabelle
  imports Complex_Main "HOL-Library.AList"
begin

section \<open>Data model (contracts)\<close>

text \<open>
  \<^verbatim>\<open>contracts::User\<close> and \<^verbatim>\<open>contracts::Order\<close> are plain structs, \<^verbatim>\<open>OrderStatus\<close> is an
  enum class. The field \<^verbatim>\<open>id\<close> of both structs is written \<open>id_user\<close> and \<open>id_order\<close>
  (HOL already has a constant \<open>id\<close>, and the two records need distinct field names).

  The C++ \<^verbatim>\<open>int\<close> is modelled by \<open>int\<close>; the only arithmetic on it is the
  post-increment of the two id counters, whose signed overflow is undefined behaviour in
  C++ and is an explicit \<open>None\<close> result of the two insert operations below.

  The \<^verbatim>\<open>double\<close> amount is a type parameter \<open>'a\<close>: the code only compares an amount
  with zero and adds amounts up from zero, so every statement below holds for any
  interpretation of \<open>0\<close>, \<open><\<close> and \<open>+\<close>, IEEE doubles included.
\<close>

datatype OrderStatus = PENDING | CONFIRMED | SHIPPED | DELIVERED | CANCELLED

record User =
  id_user :: int
  name :: string
  email :: string
  is_active :: bool

record 'a Order =
  id_order :: int
  user_id :: int
  product_name :: string
  amount :: 'a
  status :: OrderStatus

section \<open>The in-memory database\<close>

text \<open>
  \<^verbatim>\<open>std::unordered_map<int, T>\<close> is an association list: its order is the iteration order
  of the container, which \<^verbatim>\<open>findAllUsers\<close>, \<^verbatim>\<open>findOrdersByUserId\<close> and \<^verbatim>\<open>findAllOrders\<close>
  expose. \<^verbatim>\<open>m[k] = v\<close> is \<open>AList.update\<close> (overwrite in place, or a new entry),
  \<^verbatim>\<open>m.find(k)\<close> is \<open>map_of\<close>, \<^verbatim>\<open>m.erase(k)\<close> is \<open>AList.delete\<close>. Every member
  function holds the mutex for its whole body, so each one is a single atomic step on
  the state.
\<close>

record 'a InMemoryDatabase =
  users :: "(int \<times> User) list"
  orders :: "(int \<times> 'a Order) list"
  next_user_id :: int
  next_order_id :: int

definition INT_MAX :: int where
  "INT_MAX = 2147483647"

text \<open>The default member initialisers: empty maps, both counters 1.\<close>

definition InMemoryDatabase_init :: "'a InMemoryDatabase" where
  "InMemoryDatabase_init = \<lparr>users = [], orders = [], next_user_id = 1, next_order_id = 1\<rparr>"

text \<open>
  \<^verbatim>\<open>new_user.id = next_user_id_++\<close>: at \<open>INT_MAX\<close> the increment overflows a signed int,
  which has no defined behaviour; the model returns \<open>None\<close> there.
\<close>

definition saveUser :: "'a InMemoryDatabase \<Rightarrow> User \<Rightarrow> (int \<times> 'a InMemoryDatabase) option" where
  "saveUser db user =
     (if INT_MAX \<le> next_user_id db then None
      else
        let new_user = user\<lparr>id_user := next_user_id db\<rparr>
        in Some (id_user new_user,
                 db\<lparr>next_user_id := next_user_id db + 1,
                    users := AList.update (id_user new_user) new_user (users db)\<rparr>))"

definition findUserById :: "'a InMemoryDatabase \<Rightarrow> int \<Rightarrow> User option" where
  "findUserById db i = map_of (users db) i"

definition findAllUsers :: "'a InMemoryDatabase \<Rightarrow> User list" where
  "findAllUsers db = map snd (users db)"

definition updateUser :: "'a InMemoryDatabase \<Rightarrow> User \<Rightarrow> bool \<times> 'a InMemoryDatabase" where
  "updateUser db user =
     (case map_of (users db) (id_user user) of
        Some _ \<Rightarrow> (True, db\<lparr>users := AList.update (id_user user) user (users db)\<rparr>)
      | None \<Rightarrow> (False, db))"

definition deleteUser :: "'a InMemoryDatabase \<Rightarrow> int \<Rightarrow> bool \<times> 'a InMemoryDatabase" where
  "deleteUser db i =
     (map_of (users db) i \<noteq> None, db\<lparr>users := AList.delete i (users db)\<rparr>)"

definition saveOrder :: "'a InMemoryDatabase \<Rightarrow> 'a Order \<Rightarrow> (int \<times> 'a InMemoryDatabase) option" where
  "saveOrder db order =
     (if INT_MAX \<le> next_order_id db then None
      else
        let new_order = order\<lparr>id_order := next_order_id db\<rparr>
        in Some (id_order new_order,
                 db\<lparr>next_order_id := next_order_id db + 1,
                    orders := AList.update (id_order new_order) new_order (orders db)\<rparr>))"

definition findOrderById :: "'a InMemoryDatabase \<Rightarrow> int \<Rightarrow> 'a Order option" where
  "findOrderById db i = map_of (orders db) i"

definition findOrdersByUserId :: "'a InMemoryDatabase \<Rightarrow> int \<Rightarrow> 'a Order list" where
  "findOrdersByUserId db uid = filter (\<lambda>order. user_id order = uid) (map snd (orders db))"

definition findAllOrders :: "'a InMemoryDatabase \<Rightarrow> 'a Order list" where
  "findAllOrders db = map snd (orders db)"

definition updateOrder :: "'a InMemoryDatabase \<Rightarrow> 'a Order \<Rightarrow> bool \<times> 'a InMemoryDatabase" where
  "updateOrder db order =
     (case map_of (orders db) (id_order order) of
        Some _ \<Rightarrow> (True, db\<lparr>orders := AList.update (id_order order) order (orders db)\<rparr>)
      | None \<Rightarrow> (False, db))"

definition deleteOrder :: "'a InMemoryDatabase \<Rightarrow> int \<Rightarrow> bool \<times> 'a InMemoryDatabase" where
  "deleteOrder db i =
     (map_of (orders db) i \<noteq> None, db\<lparr>orders := AList.delete i (orders db)\<rparr>)"

definition clear :: "'a InMemoryDatabase \<Rightarrow> 'a InMemoryDatabase" where
  "clear db = db\<lparr>users := [], orders := [], next_user_id := 1, next_order_id := 1\<rparr>"

section \<open>UserService\<close>

text \<open>
  The services own no state but a shared pointer to the database; every test fixture
  and the integration set-up construct both services over one \<^verbatim>\<open>InMemoryDatabase\<close>, so
  each operation takes that one database and returns it updated.
\<close>

definition isValidName :: "string \<Rightarrow> bool" where
  "isValidName nm = (nm \<noteq> [])"

definition isValidEmail :: "string \<Rightarrow> bool" where
  "isValidEmail em = (em \<noteq> [])"

definition createUser ::
  "'a InMemoryDatabase \<Rightarrow> string \<Rightarrow> string \<Rightarrow> (int \<times> 'a InMemoryDatabase) option" where
  "createUser db nm em =
     (if \<not> isValidName nm \<or> \<not> isValidEmail em then Some (- 1, db)
      else saveUser db \<lparr>id_user = 0, name = nm, email = em, is_active = True\<rparr>)"

definition getUser :: "'a InMemoryDatabase \<Rightarrow> int \<Rightarrow> User option" where
  "getUser db i = findUserById db i"

definition getActiveUsers :: "'a InMemoryDatabase \<Rightarrow> User list" where
  "getActiveUsers db = filter (\<lambda>u. is_active u) (findAllUsers db)"

definition deactivateUser :: "'a InMemoryDatabase \<Rightarrow> int \<Rightarrow> bool \<times> 'a InMemoryDatabase" where
  "deactivateUser db i =
     (case findUserById db i of
        None \<Rightarrow> (False, db)
      | Some user \<Rightarrow> updateUser db (user\<lparr>is_active := False\<rparr>))"

definition userExists :: "'a InMemoryDatabase \<Rightarrow> int \<Rightarrow> bool" where
  "userExists db i = (findUserById db i \<noteq> None)"

section \<open>OrderService\<close>

definition isValidProductName :: "string \<Rightarrow> bool" where
  "isValidProductName nm = (nm \<noteq> [])"

definition isValidAmount :: "'a::{zero,ord} \<Rightarrow> bool" where
  "isValidAmount amt = (amt > 0)"

definition canCancel :: "OrderStatus \<Rightarrow> bool" where
  "canCancel st = (st = PENDING \<or> st = CONFIRMED)"

definition createOrder ::
  "('a::{zero,ord}) InMemoryDatabase \<Rightarrow> int \<Rightarrow> string \<Rightarrow> 'a \<Rightarrow> (int \<times> 'a InMemoryDatabase) option" where
  "createOrder db uid pn amt =
     (case getUser db uid of
        None \<Rightarrow> Some (- 1, db)
      | Some user \<Rightarrow>
          if \<not> is_active user then Some (- 1, db)
          else if \<not> isValidProductName pn \<or> \<not> isValidAmount amt then Some (- 1, db)
          else saveOrder db
                 \<lparr>id_order = 0, user_id = uid, product_name = pn, amount = amt, status = PENDING\<rparr>)"

definition getOrder :: "'a InMemoryDatabase \<Rightarrow> int \<Rightarrow> 'a Order option" where
  "getOrder db i = findOrderById db i"

definition getUserOrders :: "'a InMemoryDatabase \<Rightarrow> int \<Rightarrow> 'a Order list" where
  "getUserOrders db uid = findOrdersByUserId db uid"

definition updateOrderStatus ::
  "'a InMemoryDatabase \<Rightarrow> int \<Rightarrow> OrderStatus \<Rightarrow> bool \<times> 'a InMemoryDatabase" where
  "updateOrderStatus db i st =
     (case findOrderById db i of
        None \<Rightarrow> (False, db)
      | Some order \<Rightarrow> updateOrder db (order\<lparr>status := st\<rparr>))"

definition cancelOrder :: "'a InMemoryDatabase \<Rightarrow> int \<Rightarrow> bool \<times> 'a InMemoryDatabase" where
  "cancelOrder db i =
     (case findOrderById db i of
        None \<Rightarrow> (False, db)
      | Some order \<Rightarrow>
          if \<not> canCancel (status order) then (False, db)
          else updateOrder db (order\<lparr>status := CANCELLED\<rparr>))"

text \<open>
  \<^verbatim>\<open>std::accumulate\<close> from \<^verbatim>\<open>0.0\<close> is a left fold over the vector that
  \<^verbatim>\<open>findOrdersByUserId\<close> returns.
\<close>

definition getTotalAmount :: "('a::{zero,plus}) InMemoryDatabase \<Rightarrow> int \<Rightarrow> 'a" where
  "getTotalAmount db uid =
     foldl (\<lambda>sum order. if status order \<noteq> CANCELLED then sum + amount order else sum)
       0 (findOrdersByUserId db uid)"

section \<open>Reachable states of the database\<close>

text \<open>
  The states a database object can be in: the freshly constructed one, and whatever a
  mutating member function makes of a reachable state. The two lists are the ids that
  \<^verbatim>\<open>saveUser\<close> and \<^verbatim>\<open>saveOrder\<close> have returned since the last \<^verbatim>\<open>clear()\<close>, oldest
  first. The service operations only ever call these member functions.
\<close>

inductive db_trace :: "'a InMemoryDatabase \<Rightarrow> int list \<Rightarrow> int list \<Rightarrow> bool" where
  tr_init: "db_trace InMemoryDatabase_init [] []"
| tr_saveUser: "db_trace db us os \<Longrightarrow> saveUser db u = Some (i, db') \<Longrightarrow> db_trace db' (us @ [i]) os"
| tr_updateUser: "db_trace db us os \<Longrightarrow> db_trace (snd (updateUser db u)) us os"
| tr_deleteUser: "db_trace db us os \<Longrightarrow> db_trace (snd (deleteUser db k)) us os"
| tr_saveOrder: "db_trace db us os \<Longrightarrow> saveOrder db ord = Some (i, db') \<Longrightarrow> db_trace db' us (os @ [i])"
| tr_updateOrder: "db_trace db us os \<Longrightarrow> db_trace (snd (updateOrder db ord)) us os"
| tr_deleteOrder: "db_trace db us os \<Longrightarrow> db_trace (snd (deleteOrder db k)) us os"
| tr_clear: "db_trace db us os \<Longrightarrow> db_trace (clear db) [] []"

definition reachable :: "'a InMemoryDatabase \<Rightarrow> bool" where
  "reachable db = (\<exists>us os. db_trace db us os)"

text \<open>
  The representation invariant of the two maps and counters: keys are unique, every
  record is stored under its own id, and every key is a positive id below the counter.
\<close>

definition keyed :: "('v \<Rightarrow> int) \<Rightarrow> int \<Rightarrow> (int \<times> 'v) list \<Rightarrow> bool" where
  "keyed idf n al =
     (distinct (map fst al) \<and> (\<forall>(k, v) \<in> set al. idf v = k \<and> 0 < k \<and> k < n))"

definition db_inv :: "'a InMemoryDatabase \<Rightarrow> bool" where
  "db_inv db =
     (keyed id_user (next_user_id db) (users db) \<and>
      keyed id_order (next_order_id db) (orders db) \<and>
      0 < next_user_id db \<and> next_user_id db \<le> INT_MAX \<and>
      0 < next_order_id db \<and> next_order_id db \<le> INT_MAX)"

section \<open>Example states\<close>

text \<open>
  The state after \<^verbatim>\<open>createUser("A", "a@b")\<close>, \<^verbatim>\<open>createOrder(1, "Laptop", 75000.0)\<close>,
  \<^verbatim>\<open>createOrder(1, "Mouse", 2500.0)\<close> and \<^verbatim>\<open>cancelOrder(2)\<close> on a fresh database, with
  amounts read as reals.
\<close>

definition ex_user :: User where
  "ex_user = \<lparr>id_user = 1, name = ''A'', email = ''a@b'', is_active = True\<rparr>"

definition ex_laptop :: "real Order" where
  "ex_laptop =
     \<lparr>id_order = 1, user_id = 1, product_name = ''Laptop'', amount = 75000, status = PENDING\<rparr>"

definition ex_mouse :: "real Order" where
  "ex_mouse =
     \<lparr>id_order = 2, user_id = 1, product_name = ''Mouse'', amount = 2500, status = CANCELLED\<rparr>"

definition ex_db :: "real InMemoryDatabase" where
  "ex_db = \<lparr>users = [(1, ex_user)], orders = [(1, ex_laptop), (2, ex_mouse)],
            next_user_id = 2, next_order_id = 3\<rparr>"


section \<open>Association lists as maps\<close>

lemma map_of_update_same: "map_of (AList.update k v al) k = Some v"
  by (simp add: update_conv')

lemma map_of_update_other: "k' \<noteq> k \<Longrightarrow> map_of (AList.update k v al) k' = map_of al k'"
  by (simp add: update_conv')

lemma set_update_cases:
  "(a, b) \<in> set (AList.update k v al) \<Longrightarrow> (a, b) = (k, v) \<or> (a, b) \<in> set al"
  by (induction al) (auto split: if_splits)

lemma set_delete_subset: "set (AList.delete k al) \<subseteq> set al"
  by (induction al) auto

lemma keyed_update:
  assumes "keyed idf n al" and "idf v = k" and "0 < k" and "k < n'" and "n \<le> n'"
  shows "keyed idf n' (AList.update k v al)"
  using assms unfolding keyed_def
  by (auto simp: distinct_update dest!: set_update_cases)

lemma keyed_delete: "keyed idf n al \<Longrightarrow> keyed idf n (AList.delete k al)"
  unfolding keyed_def using set_delete_subset [of k al]
  by (auto simp: distinct_delete)

lemma keyed_map_of:
  "keyed idf n al \<Longrightarrow> map_of al k = Some v \<Longrightarrow> idf v = k \<and> 0 < k \<and> k < n"
  unfolding keyed_def by (auto dest!: map_of_SomeD)


lemma distinct_of_distinct_map: "distinct (map f xs) \<Longrightarrow> distinct xs"
  by (simp add: distinct_map)

lemma keyed_values:
  assumes "keyed idf n al"
  shows "distinct (map snd al) \<and> (\<forall>v. v \<in> set (map snd al) \<longleftrightarrow> map_of al (idf v) = Some v)"
proof -
  from assms have d: "distinct (map fst al)" and ids: "\<forall>(k, v) \<in> set al. idf v = k"
    by (auto simp: keyed_def)
  from ids have "map fst al = map idf (map snd al)" by (induction al) auto
  with d have "distinct (map idf (map snd al))" by simp
  then have "distinct (map snd al)" by (rule distinct_of_distinct_map)
  moreover have "\<forall>v. v \<in> set (map snd al) \<longleftrightarrow> map_of al (idf v) = Some v"
  proof (intro allI iffI)
    fix v assume "v \<in> set (map snd al)"
    then obtain k where "(k, v) \<in> set al" by auto
    with ids have "(idf v, v) \<in> set al" by auto
    with d show "map_of al (idf v) = Some v" by simp
  next
    fix v assume "map_of al (idf v) = Some v"
    then have "(idf v, v) \<in> set al" by (rule map_of_SomeD)
    then show "v \<in> set (map snd al)" by force
  qed
  ultimately show ?thesis by simp
qed

section \<open>The invariant holds in every reachable state\<close>

lemma db_inv_init: "db_inv InMemoryDatabase_init"
  by (simp add: db_inv_def InMemoryDatabase_init_def keyed_def INT_MAX_def)

lemma db_inv_clear: "db_inv (clear db)"
  by (simp add: db_inv_def clear_def keyed_def INT_MAX_def)

lemma db_inv_saveUser:
  assumes "db_inv db" and "saveUser db u = Some (i, db')"
  shows "db_inv db'"
proof -
  from assms(2) have lt: "next_user_id db < INT_MAX"
    and i: "i = next_user_id db"
    and db': "db' = db\<lparr>next_user_id := next_user_id db + 1,
        users := AList.update (next_user_id db) (u\<lparr>id_user := next_user_id db\<rparr>) (users db)\<rparr>"
    by (auto simp: saveUser_def Let_def split: if_splits)
  from assms(1) have "keyed id_user (next_user_id db + 1)
      (AList.update (next_user_id db) (u\<lparr>id_user := next_user_id db\<rparr>) (users db))"
    by (intro keyed_update [where n = "next_user_id db"]) (simp_all add: db_inv_def)
  with assms(1) lt show ?thesis
    by (simp add: db' db_inv_def)
qed

lemma db_inv_saveOrder:
  assumes "db_inv db" and "saveOrder db ord = Some (i, db')"
  shows "db_inv db'"
proof -
  from assms(2) have lt: "next_order_id db < INT_MAX"
    and db': "db' = db\<lparr>next_order_id := next_order_id db + 1,
        orders := AList.update (next_order_id db) (ord\<lparr>id_order := next_order_id db\<rparr>) (orders db)\<rparr>"
    by (auto simp: saveOrder_def Let_def split: if_splits)
  from assms(1) have "keyed id_order (next_order_id db + 1)
      (AList.update (next_order_id db) (ord\<lparr>id_order := next_order_id db\<rparr>) (orders db))"
    by (intro keyed_update [where n = "next_order_id db"]) (simp_all add: db_inv_def)
  with assms(1) lt show ?thesis
    by (simp add: db' db_inv_def)
qed

lemma db_inv_updateUser: "db_inv db \<Longrightarrow> db_inv (snd (updateUser db u))"
proof (cases "map_of (users db) (id_user u)")
  case None
  assume "db_inv db"
  with None show ?thesis by (simp add: updateUser_def)
next
  case (Some v)
  assume inv: "db_inv db"
  then have k: "keyed id_user (next_user_id db) (users db)" by (simp add: db_inv_def)
  from keyed_map_of [OF k Some] have "0 < id_user u" "id_user u < next_user_id db" by simp_all
  with k have "keyed id_user (next_user_id db) (AList.update (id_user u) u (users db))"
    by (intro keyed_update [where n = "next_user_id db"]) simp_all
  with inv Some show ?thesis by (simp add: updateUser_def db_inv_def)
qed

lemma db_inv_updateOrder: "db_inv db \<Longrightarrow> db_inv (snd (updateOrder db ord))"
proof (cases "map_of (orders db) (id_order ord)")
  case None
  assume "db_inv db"
  with None show ?thesis by (simp add: updateOrder_def)
next
  case (Some v)
  assume inv: "db_inv db"
  then have k: "keyed id_order (next_order_id db) (orders db)" by (simp add: db_inv_def)
  from keyed_map_of [OF k Some] have "0 < id_order ord" "id_order ord < next_order_id db"
    by simp_all
  with k have "keyed id_order (next_order_id db) (AList.update (id_order ord) ord (orders db))"
    by (intro keyed_update [where n = "next_order_id db"]) simp_all
  with inv Some show ?thesis by (simp add: updateOrder_def db_inv_def)
qed

lemma db_inv_deleteUser: "db_inv db \<Longrightarrow> db_inv (snd (deleteUser db k))"
  by (simp add: db_inv_def deleteUser_def keyed_delete)

lemma db_inv_deleteOrder: "db_inv db \<Longrightarrow> db_inv (snd (deleteOrder db k))"
  by (simp add: db_inv_def deleteOrder_def keyed_delete)

lemma db_trace_inv: "db_trace db us os \<Longrightarrow> db_inv db"
proof (induction rule: db_trace.induct)
  case tr_init
  show ?case by (rule db_inv_init)
next
  case (tr_saveUser db us os u i db')
  then show ?case by (blast intro: db_inv_saveUser)
next
  case (tr_saveOrder db us os ord i db')
  then show ?case by (blast intro: db_inv_saveOrder)
qed (simp_all add: db_inv_updateUser db_inv_updateOrder db_inv_deleteUser db_inv_deleteOrder db_inv_clear)

lemma reachable_inv: "reachable db \<Longrightarrow> db_inv db"
  unfolding reachable_def by (blast intro: db_trace_inv)

lemma reachable_order_id:
  "reachable db \<Longrightarrow> findOrderById db i = Some ord \<Longrightarrow> id_order ord = i \<and> 0 < i \<and> i < next_order_id db"
  using keyed_map_of [of id_order "next_order_id db" "orders db" i ord] reachable_inv [of db]
  by (simp add: db_inv_def findOrderById_def)

lemma reachable_user_id:
  "reachable db \<Longrightarrow> findUserById db i = Some u \<Longrightarrow> id_user u = i \<and> 0 < i \<and> i < next_user_id db"
  using keyed_map_of [of id_user "next_user_id db" "users db" i u] reachable_inv [of db]
  by (simp add: db_inv_def findUserById_def)

lemma reachable_findAllOrders:
  "reachable db \<Longrightarrow>
     distinct (findAllOrders db) \<and>
     (\<forall>ord. ord \<in> set (findAllOrders db) \<longleftrightarrow> findOrderById db (id_order ord) = Some ord)"
  using keyed_values [of id_order "next_order_id db" "orders db"] reachable_inv [of db]
  by (simp add: db_inv_def findAllOrders_def findOrderById_def)


text \<open>
  The service operations change the database only through its member functions, so they
  stay inside the reachable states.
\<close>

lemma reachable_saveUser: "reachable db \<Longrightarrow> saveUser db u = Some (i, db') \<Longrightarrow> reachable db'"
  unfolding reachable_def by (blast intro: tr_saveUser)

lemma reachable_saveOrder: "reachable db \<Longrightarrow> saveOrder db ord = Some (i, db') \<Longrightarrow> reachable db'"
  unfolding reachable_def by (blast intro: tr_saveOrder)

lemma reachable_updateUser: "reachable db \<Longrightarrow> reachable (snd (updateUser db u))"
  unfolding reachable_def by (blast intro: tr_updateUser)

lemma reachable_updateOrder: "reachable db \<Longrightarrow> reachable (snd (updateOrder db ord))"
  unfolding reachable_def by (blast intro: tr_updateOrder)




lemma reachable_createUser:
  "reachable db \<Longrightarrow> createUser db nm em = Some (i, db') \<Longrightarrow> reachable db'"
  by (auto simp: createUser_def split: if_splits intro: reachable_saveUser)

lemma reachable_deactivateUser: "reachable db \<Longrightarrow> reachable (snd (deactivateUser db i))"
  by (auto simp: deactivateUser_def split: option.splits intro: reachable_updateUser)

lemma reachable_createOrder:
  "reachable db \<Longrightarrow> createOrder db uid pn amt = Some (i, db') \<Longrightarrow> reachable db'"
  by (auto simp: createOrder_def split: option.splits if_splits intro: reachable_saveOrder)

lemma reachable_updateOrderStatus: "reachable db \<Longrightarrow> reachable (snd (updateOrderStatus db i st))"
  by (auto simp: updateOrderStatus_def split: option.splits intro: reachable_updateOrder)

lemma reachable_cancelOrder: "reachable db \<Longrightarrow> reachable (snd (cancelOrder db i))"
  by (auto simp: cancelOrder_def split: option.splits intro: reachable_updateOrder)

section \<open>What the operations compute\<close>




lemma updateOrder_found:
  "findOrderById db i = Some ord \<Longrightarrow> id_order ord' = i \<Longrightarrow>
   updateOrder db ord' = (True, db\<lparr>orders := AList.update i ord' (orders db)\<rparr>)"
  by (simp add: updateOrder_def findOrderById_def)

lemma updateUser_found:
  "findUserById db i = Some u \<Longrightarrow> id_user u' = i \<Longrightarrow>
   updateUser db u' = (True, db\<lparr>users := AList.update i u' (users db)\<rparr>)"
  by (simp add: updateUser_def findUserById_def)

lemma updateOrderStatus_found:
  assumes "reachable db" and "findOrderById db i = Some ord"
  shows "updateOrderStatus db i st =
           (True, db\<lparr>orders := AList.update i (ord\<lparr>status := st\<rparr>) (orders db)\<rparr>)"
  using assms reachable_order_id [OF assms]
  by (simp add: updateOrderStatus_def updateOrder_found)

lemma cancelOrder_found:
  assumes "reachable db" and "findOrderById db i = Some ord" and "canCancel (status ord)"
  shows "cancelOrder db i =
           (True, db\<lparr>orders := AList.update i (ord\<lparr>status := CANCELLED\<rparr>) (orders db)\<rparr>)"
  using assms reachable_order_id [OF assms(1,2)]
  by (simp add: cancelOrder_def updateOrder_found)

lemma deactivateUser_found:
  assumes "reachable db" and "findUserById db i = Some u"
  shows "deactivateUser db i =
           (True, db\<lparr>users := AList.update i (u\<lparr>is_active := False\<rparr>) (users db)\<rparr>)"
  using assms reachable_user_id [OF assms]
  by (simp add: deactivateUser_def updateUser_found)

lemma foldl_cond_filter:
  "foldl (\<lambda>s x. if P x then s + f x else s) a xs = foldl (+) a (map f (filter P xs))"
  by (induction xs arbitrary: a) simp_all

lemma foldl_plus_sum_list:
  fixes a :: "'a::monoid_add"
  shows "foldl (+) a xs = a + sum_list xs"
  by (induction xs arbitrary: a) (simp_all add: add.assoc)

text \<open>
  Where addition is associative with unit \<open>0\<close>, the left fold of \<open>getTotalAmount\<close> is
  the sum of the list.
\<close>

lemma getTotalAmount_sum_list:
  fixes db :: "('a::monoid_add) InMemoryDatabase"
  shows "getTotalAmount db uid =
           sum_list (map amount
             (filter (\<lambda>ord. user_id ord = uid \<and> status ord \<noteq> CANCELLED) (findAllOrders db)))"
  by (simp add: getTotalAmount_def findOrdersByUserId_def findAllOrders_def foldl_cond_filter
        conj_commute foldl_plus_sum_list)

section \<open>The example state\<close>

lemma ex_db_trace: "db_trace ex_db [1] [1, 2]"
proof -
  let ?d0 = "InMemoryDatabase_init :: real InMemoryDatabase"
  let ?d1 = "\<lparr>users = [(1, ex_user)], orders = [], next_user_id = 2, next_order_id = 1\<rparr>
               :: real InMemoryDatabase"
  let ?d2 = "\<lparr>users = [(1, ex_user)], orders = [(1, ex_laptop)],
              next_user_id = 2, next_order_id = 2\<rparr>"
  let ?m = "ex_mouse\<lparr>status := PENDING\<rparr>"
  let ?d3 = "\<lparr>users = [(1, ex_user)], orders = [(1, ex_laptop), (2, ?m)],
              next_user_id = 2, next_order_id = 3\<rparr>"
  have t0: "db_trace ?d0 [] []" by (rule tr_init)
  have s1: "saveUser ?d0 (ex_user\<lparr>id_user := 0\<rparr>) = Some (1, ?d1)"
    by (simp add: saveUser_def InMemoryDatabase_init_def INT_MAX_def ex_user_def)
  have t1: "db_trace ?d1 [1] []"
    using tr_saveUser [OF t0 s1] by simp
  have s2: "saveOrder ?d1 (ex_laptop\<lparr>id_order := 0\<rparr>) = Some (1, ?d2)"
    by (simp add: saveOrder_def INT_MAX_def ex_laptop_def)
  have t2: "db_trace ?d2 [1] [1]"
    using tr_saveOrder [OF t1 s2] by simp
  have s3: "saveOrder ?d2 (?m\<lparr>id_order := 0\<rparr>) = Some (2, ?d3)"
    by (simp add: saveOrder_def INT_MAX_def ex_mouse_def)
  have t3: "db_trace ?d3 [1] [1, 2]"
    using tr_saveOrder [OF t2 s3] by simp
  have s4: "snd (updateOrder ?d3 ex_mouse) = ex_db"
    by (simp add: updateOrder_def ex_db_def ex_mouse_def)
  show ?thesis
    using tr_updateOrder [OF t3, of ex_mouse] by (simp only: s4)
qed

lemma ex_db_reachable: "reachable ex_db"
  unfolding reachable_def using ex_db_trace by blast

lemma ex_find_laptop: "findOrderById ex_db 1 = Some ex_laptop"
  by (simp add: findOrderById_def ex_db_def)

lemma ex_find_mouse: "findOrderById ex_db 2 = Some ex_mouse"
  by (simp add: findOrderById_def ex_db_def)

lemma ex_find_user: "findUserById ex_db 1 = Some ex_user"
  by (simp add: findUserById_def ex_db_def)




section \<open>Claims\<close>

subsection \<open>C1: cancelling an order that is already cancelled\<close>

text \<open>
  C1 as the specification states it: for an order whose status is \<open>CANCELLED\<close>,
  \<open>cancelOrder\<close> returns true. It does not: \<open>canCancel\<close> admits \<open>PENDING\<close> and
  \<open>CONFIRMED\<close> only, so in the example state, where order 2 is cancelled, \<open>cancelOrder\<close>
  on 2 does not return true.
\<close>

theorem cancelOrder_cancelled_counterexample:
  "reachable ex_db \<and> getOrder ex_db 2 = Some ex_mouse \<and> status ex_mouse = CANCELLED \<and>
   fst (cancelOrder ex_db 2) \<noteq> True"
  using ex_db_reachable
  by (simp add: getOrder_def ex_find_mouse cancelOrder_def canCancel_def ex_mouse_def)

text \<open>
  C1, amended: for every order whose current status is \<open>CANCELLED\<close>, \<open>cancelOrder\<close> on
  its id returns false and leaves the whole database as it was; the order's status remains
  \<open>CANCELLED\<close>.
\<close>

theorem cancelOrder_cancelled_returns_false:
  assumes "findOrderById db i = Some ord" and "status ord = CANCELLED"
  shows "cancelOrder db i = (False, db) \<and> getOrder (snd (cancelOrder db i)) i = Some ord"
  using assms by (simp add: cancelOrder_def canCancel_def getOrder_def)

theorem cancelOrder_cancelled_returns_false_witness:
  "findOrderById ex_db 2 = Some ex_mouse \<and> status ex_mouse = CANCELLED \<and>
   cancelOrder ex_db 2 = (False, ex_db) \<and> getOrder (snd (cancelOrder ex_db 2)) 2 = Some ex_mouse"
proof -
  have st: "status ex_mouse = CANCELLED" by (simp add: ex_mouse_def)
  from cancelOrder_cancelled_returns_false [OF ex_find_mouse st] ex_find_mouse st
  show ?thesis by blast
qed

subsection \<open>C2: createUser and the contact format\<close>

text \<open>
  C2 asks \<open>createUser\<close> to return \<open>-1\<close> whenever the contact has no \<open>@\<close>. The code's
  \<open>isValidEmail\<close> only tests for the empty string (its own comment marks the check as
  removed and the contract as broken, and the unit and contract tests expect \<open>-1\<close> for
  \<^verbatim>\<open>"invalid-email"\<close>). On a fresh database \<^verbatim>\<open>createUser("John Doe", "invalid-email")\<close>
  stores the user and returns id 1.
\<close>

theorem createUser_accepts_contact_without_at:
  "CHR ''@'' \<notin> set ''invalid-email'' \<and>
   createUser (InMemoryDatabase_init :: real InMemoryDatabase) ''John Doe'' ''invalid-email'' =
     Some (1, \<lparr>users = [(1, \<lparr>id_user = 1, name = ''John Doe'', email = ''invalid-email'',
                              is_active = True\<rparr>)],
               orders = [], next_user_id = 2, next_order_id = 1\<rparr>)"
  by (simp add: createUser_def isValidName_def isValidEmail_def saveUser_def
      InMemoryDatabase_init_def INT_MAX_def)

theorem createUser_accepts_contact_without_at_witness:
  "fst (the (createUser (InMemoryDatabase_init :: real InMemoryDatabase)
               ''John Doe'' ''invalid-email'')) \<noteq> - 1"
  using createUser_accepts_contact_without_at by simp

subsection \<open>C3: createOrder\<close>




subsection \<open>C4: cancelOrder\<close>

text \<open>
  C4. In every reachable state: \<open>cancelOrder\<close> returns false, changing nothing, if no
  order has the id or if the order is \<open>SHIPPED\<close> or \<open>DELIVERED\<close>; if the order is
  \<open>PENDING\<close> or \<open>CONFIRMED\<close> it returns true, the stored order is the old one with status
  \<open>CANCELLED\<close>, and every other order, the users and the counters are as before.
\<close>

theorem cancelOrder_contract:
  assumes "reachable db"
  shows "(findOrderById db i = None \<longrightarrow> cancelOrder db i = (False, db)) \<and>
         (\<forall>ord. findOrderById db i = Some ord \<and> (status ord = SHIPPED \<or> status ord = DELIVERED)
            \<longrightarrow> cancelOrder db i = (False, db)) \<and>
         (\<forall>ord. findOrderById db i = Some ord \<and> (status ord = PENDING \<or> status ord = CONFIRMED)
            \<longrightarrow> fst (cancelOrder db i) = True \<and>
                getOrder (snd (cancelOrder db i)) i = Some (ord\<lparr>status := CANCELLED\<rparr>) \<and>
                (\<forall>j. j \<noteq> i \<longrightarrow> getOrder (snd (cancelOrder db i)) j = getOrder db j) \<and>
                users (snd (cancelOrder db i)) = users db \<and>
                next_user_id (snd (cancelOrder db i)) = next_user_id db \<and>
                next_order_id (snd (cancelOrder db i)) = next_order_id db)"
proof (intro conjI allI impI)
  assume "findOrderById db i = None"
  then show "cancelOrder db i = (False, db)" by (simp add: cancelOrder_def)
next
  fix ord
  assume "findOrderById db i = Some ord \<and> (status ord = SHIPPED \<or> status ord = DELIVERED)"
  then show "cancelOrder db i = (False, db)"
    by (auto simp: cancelOrder_def canCancel_def)
next
  fix ord
  assume a: "findOrderById db i = Some ord \<and> (status ord = PENDING \<or> status ord = CONFIRMED)"
  then have c: "cancelOrder db i =
      (True, db\<lparr>orders := AList.update i (ord\<lparr>status := CANCELLED\<rparr>) (orders db)\<rparr>)"
    using cancelOrder_found [OF assms, of i ord] by (auto simp: canCancel_def)
  show "fst (cancelOrder db i) = True" by (simp add: c)
  show "getOrder (snd (cancelOrder db i)) i = Some (ord\<lparr>status := CANCELLED\<rparr>)"
    by (simp add: c getOrder_def findOrderById_def map_of_update_same)
  show "users (snd (cancelOrder db i)) = users db" by (simp add: c)
  show "next_user_id (snd (cancelOrder db i)) = next_user_id db" by (simp add: c)
  show "next_order_id (snd (cancelOrder db i)) = next_order_id db" by (simp add: c)
  fix j assume "j \<noteq> i"
  then show "getOrder (snd (cancelOrder db i)) j = getOrder db j"
    by (simp add: c getOrder_def findOrderById_def map_of_update_other)
qed

theorem cancelOrder_contract_witness:
  "reachable ex_db \<and> findOrderById ex_db 1 = Some ex_laptop \<and> status ex_laptop = PENDING \<and>
   fst (cancelOrder ex_db 1) = True \<and>
   getOrder (snd (cancelOrder ex_db 1)) 1 = Some (ex_laptop\<lparr>status := CANCELLED\<rparr>) \<and>
   getOrder (snd (cancelOrder ex_db 1)) 2 = Some ex_mouse \<and>
   findOrderById ex_db 7 = None \<and> cancelOrder ex_db 7 = (False, ex_db)"
proof -
  have st: "status ex_laptop = PENDING" by (simp add: ex_laptop_def)
  have none: "findOrderById ex_db 7 = None" by (simp add: findOrderById_def ex_db_def)
  have m: "getOrder ex_db 2 = Some ex_mouse" by (simp add: getOrder_def ex_find_mouse)
  from cancelOrder_contract [OF ex_db_reachable, of 1] ex_find_laptop st
  have a: "fst (cancelOrder ex_db 1) = True"
    and b: "getOrder (snd (cancelOrder ex_db 1)) 1 = Some (ex_laptop\<lparr>status := CANCELLED\<rparr>)"
    and c: "getOrder (snd (cancelOrder ex_db 1)) 2 = getOrder ex_db 2"
    by simp_all
  from cancelOrder_contract [OF ex_db_reachable, of 7] none
  have d: "cancelOrder ex_db 7 = (False, ex_db)" by simp
  from ex_db_reachable ex_find_laptop st a b c m none d show ?thesis by simp
qed

subsection \<open>C5: getTotalAmount\<close>

text \<open>
  C5. \<open>getTotalAmount\<close> is the sum, added up from zero in iteration order, of the amounts
  of the stored orders whose \<open>user_id\<close> matches and whose status is not \<open>CANCELLED\<close>; in a
  reachable state \<open>findAllOrders\<close> lists every stored order exactly once. It is a total
  function, it is \<open>0\<close> when no stored order belongs to the owner, and it does not read the
  users at all, so it is the same whether or not the owner is an account.
\<close>

theorem getTotalAmount_sum:
  fixes db :: "('a::{zero,plus}) InMemoryDatabase"
  shows "getTotalAmount db uid =
           foldl (+) 0 (map amount
             (filter (\<lambda>ord. user_id ord = uid \<and> status ord \<noteq> CANCELLED) (findAllOrders db))) \<and>
         (reachable db \<longrightarrow>
            distinct (findAllOrders db) \<and>
            (\<forall>ord. (ord \<in> set (findAllOrders db)) = (getOrder db (id_order ord) = Some ord))) \<and>
         ((\<forall>ord \<in> set (findAllOrders db). user_id ord \<noteq> uid) \<longrightarrow> getTotalAmount db uid = 0) \<and>
         getTotalAmount (db\<lparr>users := usrs, next_user_id := n\<rparr>) uid = getTotalAmount db uid"
proof (intro conjI impI)
  show eq: "getTotalAmount db uid =
           foldl (+) 0 (map amount
             (filter (\<lambda>ord. user_id ord = uid \<and> status ord \<noteq> CANCELLED) (findAllOrders db)))"
    by (simp add: getTotalAmount_def findOrdersByUserId_def findAllOrders_def foldl_cond_filter
        conj_commute)
  show "getTotalAmount (db\<lparr>users := usrs, next_user_id := n\<rparr>) uid = getTotalAmount db uid"
    by (simp add: getTotalAmount_def findOrdersByUserId_def)
  {
    assume "\<forall>ord \<in> set (findAllOrders db). user_id ord \<noteq> uid"
    then have "filter (\<lambda>ord. user_id ord = uid \<and> status ord \<noteq> CANCELLED) (findAllOrders db) = []"
      by (auto simp: filter_empty_conv)
    with eq show "getTotalAmount db uid = 0" by simp
  }
  assume r: "reachable db"
  from reachable_findAllOrders [OF r] show "distinct (findAllOrders db)" by simp
  from reachable_findAllOrders [OF r]
  show "\<forall>ord. (ord \<in> set (findAllOrders db)) = (getOrder db (id_order ord) = Some ord)"
    by (simp add: getOrder_def)
qed

theorem getTotalAmount_sum_witness:
  "reachable ex_db \<and> getTotalAmount ex_db 1 = 75000 \<and> getTotalAmount ex_db 7 = 0 \<and>
   findUserById ex_db 7 = None \<and> findOrdersByUserId ex_db 7 = [] \<and>
   distinct (findAllOrders ex_db) \<and> ex_mouse \<in> set (findAllOrders ex_db) \<and>
   status ex_mouse = CANCELLED \<and> user_id ex_mouse = 1"
proof -
  have a: "getTotalAmount ex_db 1 = 75000"
    using getTotalAmount_sum [of ex_db 1]
    by (simp add: findAllOrders_def ex_db_def ex_laptop_def ex_mouse_def)
  have n: "\<forall>ord \<in> set (findAllOrders ex_db). user_id ord \<noteq> 7"
    by (simp add: findAllOrders_def ex_db_def ex_laptop_def ex_mouse_def)
  with getTotalAmount_sum [of ex_db 7] have b: "getTotalAmount ex_db 7 = 0" by blast
  have c: "findUserById ex_db 7 = None" by (simp add: findUserById_def ex_db_def)
  have d: "findOrdersByUserId ex_db 7 = []"
    by (simp add: findOrdersByUserId_def ex_db_def ex_laptop_def ex_mouse_def)
  from getTotalAmount_sum [of ex_db 1] ex_db_reachable
  have e: "distinct (findAllOrders ex_db)" by blast
  have f: "ex_mouse \<in> set (findAllOrders ex_db)" by (simp add: findAllOrders_def ex_db_def)
  have g: "status ex_mouse = CANCELLED" "user_id ex_mouse = 1" by (simp_all add: ex_mouse_def)
  from ex_db_reachable a b c d e f g show ?thesis by simp
qed

subsection \<open>C6: deactivateUser\<close>

text \<open>
  C6. In every reachable state: \<open>deactivateUser\<close> returns false, changing nothing, if the
  id is unknown; otherwise it returns true, the stored account is the old one with
  \<open>is_active = False\<close>, and all else is as before; a second call on the resulting database
  returns true again and leaves that database unchanged.
\<close>

theorem deactivateUser_contract:
  assumes "reachable db"
  shows "(getUser db i = None \<longrightarrow> deactivateUser db i = (False, db)) \<and>
         (\<forall>u. getUser db i = Some u
            \<longrightarrow> fst (deactivateUser db i) = True \<and>
                getUser (snd (deactivateUser db i)) i = Some (u\<lparr>is_active := False\<rparr>) \<and>
                (\<forall>j. j \<noteq> i \<longrightarrow> getUser (snd (deactivateUser db i)) j = getUser db j) \<and>
                orders (snd (deactivateUser db i)) = orders db \<and>
                next_user_id (snd (deactivateUser db i)) = next_user_id db \<and>
                next_order_id (snd (deactivateUser db i)) = next_order_id db \<and>
                deactivateUser (snd (deactivateUser db i)) i = (True, snd (deactivateUser db i)))"
proof (intro conjI allI impI)
  assume "getUser db i = None"
  then show "deactivateUser db i = (False, db)" by (simp add: deactivateUser_def getUser_def)
next
  fix u
  assume "getUser db i = Some u"
  then have a: "findUserById db i = Some u" by (simp add: getUser_def)
  note c = deactivateUser_found [OF assms a]
  from reachable_user_id [OF assms a] have idu: "id_user u = i" by simp
  show "fst (deactivateUser db i) = True" by (simp add: c)
  show "getUser (snd (deactivateUser db i)) i = Some (u\<lparr>is_active := False\<rparr>)"
    by (simp add: c getUser_def findUserById_def map_of_update_same)
  show "orders (snd (deactivateUser db i)) = orders db" by (simp add: c)
  show "next_user_id (snd (deactivateUser db i)) = next_user_id db" by (simp add: c)
  show "next_order_id (snd (deactivateUser db i)) = next_order_id db" by (simp add: c)
  show "deactivateUser (snd (deactivateUser db i)) i = (True, snd (deactivateUser db i))"
    unfolding c snd_conv
    by (simp add: deactivateUser_def findUserById_def map_of_update_same updateUser_def idu)
  fix j assume "j \<noteq> i"
  then show "getUser (snd (deactivateUser db i)) j = getUser db j"
    by (simp add: c getUser_def findUserById_def map_of_update_other)
qed

theorem deactivateUser_contract_witness:
  "reachable ex_db \<and> getUser ex_db 1 = Some ex_user \<and> is_active ex_user \<and>
   fst (deactivateUser ex_db 1) = True \<and>
   getUser (snd (deactivateUser ex_db 1)) 1 = Some (ex_user\<lparr>is_active := False\<rparr>) \<and>
   deactivateUser (snd (deactivateUser ex_db 1)) 1 = (True, snd (deactivateUser ex_db 1)) \<and>
   getUser ex_db 7 = None \<and> deactivateUser ex_db 7 = (False, ex_db)"
proof -
  have u: "getUser ex_db 1 = Some ex_user" by (simp add: getUser_def ex_find_user)
  have act: "is_active ex_user" by (simp add: ex_user_def)
  have none: "getUser ex_db 7 = None" by (simp add: getUser_def findUserById_def ex_db_def)
  from deactivateUser_contract [OF ex_db_reachable, of 1] u
  have a: "fst (deactivateUser ex_db 1) = True"
    and b: "getUser (snd (deactivateUser ex_db 1)) 1 = Some (ex_user\<lparr>is_active := False\<rparr>)"
    and c: "deactivateUser (snd (deactivateUser ex_db 1)) 1 = (True, snd (deactivateUser ex_db 1))"
    by simp_all
  from deactivateUser_contract [OF ex_db_reachable, of 7] none
  have d: "deactivateUser ex_db 7 = (False, ex_db)" by simp
  from ex_db_reachable u act a b c none d show ?thesis by simp
qed

subsection \<open>C7: userExists and getUser\<close>

text \<open>
  C7. For every account id and every state of the database, reachable or not, \<open>userExists\<close>
  is true exactly when \<open>getUser\<close> on the same id returns a present value: both read the
  same map through \<open>findUserById\<close>, there is no separate existence index.
\<close>

theorem userExists_iff_getUser:
  "userExists db i = (getUser db i \<noteq> None)"
  by (simp add: userExists_def getUser_def)

subsection \<open>C8: updateOrderStatus\<close>

text \<open>
  C8. In every reachable state: \<open>updateOrderStatus\<close> returns false, changing nothing, if
  no order has the id; otherwise, whatever the current status and whatever the new one, it
  returns true, the stored order is the old one with the new status, and all else is as
  before.
\<close>

theorem updateOrderStatus_contract:
  assumes "reachable db"
  shows "(findOrderById db i = None \<longrightarrow> updateOrderStatus db i st = (False, db)) \<and>
         (\<forall>ord. findOrderById db i = Some ord
            \<longrightarrow> fst (updateOrderStatus db i st) = True \<and>
                getOrder (snd (updateOrderStatus db i st)) i = Some (ord\<lparr>status := st\<rparr>) \<and>
                (\<forall>j. j \<noteq> i \<longrightarrow> getOrder (snd (updateOrderStatus db i st)) j = getOrder db j) \<and>
                users (snd (updateOrderStatus db i st)) = users db \<and>
                next_user_id (snd (updateOrderStatus db i st)) = next_user_id db \<and>
                next_order_id (snd (updateOrderStatus db i st)) = next_order_id db)"
proof (intro conjI allI impI)
  assume "findOrderById db i = None"
  then show "updateOrderStatus db i st = (False, db)" by (simp add: updateOrderStatus_def)
next
  fix ord
  assume a: "findOrderById db i = Some ord"
  note c = updateOrderStatus_found [OF assms a, of st]
  show "fst (updateOrderStatus db i st) = True" by (simp add: c)
  show "getOrder (snd (updateOrderStatus db i st)) i = Some (ord\<lparr>status := st\<rparr>)"
    by (simp add: c getOrder_def findOrderById_def map_of_update_same)
  show "users (snd (updateOrderStatus db i st)) = users db" by (simp add: c)
  show "next_user_id (snd (updateOrderStatus db i st)) = next_user_id db" by (simp add: c)
  show "next_order_id (snd (updateOrderStatus db i st)) = next_order_id db" by (simp add: c)
  fix j assume "j \<noteq> i"
  then show "getOrder (snd (updateOrderStatus db i st)) j = getOrder db j"
    by (simp add: c getOrder_def findOrderById_def map_of_update_other)
qed

theorem updateOrderStatus_contract_witness:
  "reachable ex_db \<and> findOrderById ex_db 2 = Some ex_mouse \<and> status ex_mouse = CANCELLED \<and>
   fst (updateOrderStatus ex_db 2 PENDING) = True \<and>
   getOrder (snd (updateOrderStatus ex_db 2 PENDING)) 2 = Some (ex_mouse\<lparr>status := PENDING\<rparr>) \<and>
   findOrderById ex_db 7 = None \<and> updateOrderStatus ex_db 7 SHIPPED = (False, ex_db)"
proof -
  have st: "status ex_mouse = CANCELLED" by (simp add: ex_mouse_def)
  have none: "findOrderById ex_db 7 = None" by (simp add: findOrderById_def ex_db_def)
  from updateOrderStatus_contract [OF ex_db_reachable, of 2 PENDING] ex_find_mouse
  have a: "fst (updateOrderStatus ex_db 2 PENDING) = True"
    and b: "getOrder (snd (updateOrderStatus ex_db 2 PENDING)) 2 = Some (ex_mouse\<lparr>status := PENDING\<rparr>)"
    by simp_all
  from updateOrderStatus_contract [OF ex_db_reachable, of 7 SHIPPED] none
  have d: "updateOrderStatus ex_db 7 SHIPPED = (False, ex_db)" by simp
  from ex_db_reachable ex_find_mouse st a b none d show ?thesis by simp
qed

subsection \<open>C9: ids assigned by the database\<close>




subsection \<open>C10: a refused cancellation has no effect\<close>

text \<open>
  C10. Whenever \<open>cancelOrder\<close> returns false, in any state, the database it leaves is the
  one it was given. In a reachable state it returns false exactly when the order is unknown
  or its status is \<open>SHIPPED\<close>, \<open>DELIVERED\<close> or \<open>CANCELLED\<close>.
\<close>

theorem cancelOrder_false_no_effect:
  "(\<not> fst (cancelOrder db i) \<longrightarrow> snd (cancelOrder db i) = db) \<and>
   (reachable db \<longrightarrow>
      (\<not> fst (cancelOrder db i)) =
        (findOrderById db i = None \<or>
         (\<exists>ord. findOrderById db i = Some ord \<and>
                (status ord = SHIPPED \<or> status ord = DELIVERED \<or> status ord = CANCELLED))))"
proof (intro conjI impI)
  assume "\<not> fst (cancelOrder db i)"
  then show "snd (cancelOrder db i) = db"
    by (auto simp: cancelOrder_def updateOrder_def split: option.splits if_splits)
next
  assume r: "reachable db"
  show "(\<not> fst (cancelOrder db i)) =
        (findOrderById db i = None \<or>
         (\<exists>ord. findOrderById db i = Some ord \<and>
                (status ord = SHIPPED \<or> status ord = DELIVERED \<or> status ord = CANCELLED)))"
  proof (cases "findOrderById db i")
    case None
    then show ?thesis by (simp add: cancelOrder_def)
  next
    case (Some ord)
    show ?thesis
    proof (cases "canCancel (status ord)")
      case True
      with cancelOrder_found [OF r Some True] Some show ?thesis
        by (auto simp: canCancel_def)
    next
      case False
      with Some show ?thesis
        by (cases "status ord") (auto simp: cancelOrder_def canCancel_def)
    qed
  qed
qed

theorem cancelOrder_false_no_effect_witness:
  "reachable ex_db \<and> \<not> fst (cancelOrder ex_db 2) \<and> snd (cancelOrder ex_db 2) = ex_db \<and>
   findOrderById ex_db 2 = Some ex_mouse \<and> status ex_mouse = CANCELLED"
proof -
  have st: "status ex_mouse = CANCELLED" by (simp add: ex_mouse_def)
  have f: "\<not> fst (cancelOrder ex_db 2)"
    using cancelOrder_false_no_effect [of ex_db 2] ex_db_reachable ex_find_mouse st by simp
  with cancelOrder_false_no_effect [of ex_db 2] have "snd (cancelOrder ex_db 2) = ex_db" by simp
  with f ex_db_reachable ex_find_mouse st show ?thesis by simp
qed

end
